theory Spec2Isabelle
  imports Main
begin

section \<open>Wire messages and the HTTP response object\<close>

text \<open>
  \<^verbatim>\<open>server/src/types.ts\<close> and \<^verbatim>\<open>client/src/types.ts\<close> declare the same two
  messages. A body is \<^verbatim>\<open>any\<close>: a JSON value, as socket.io carries it and as axios
  returns it (or \<^verbatim>\<open>undefined\<close>). A
  \<^verbatim>\<open>Record<string, string>\<close> is the list of its entries, in the order
  \<^verbatim>\<open>Object.entries\<close> yields them. The fields of the request are prefixed, since
  both records have \<^verbatim>\<open>headers\<close> and \<^verbatim>\<open>body\<close>.
\<close>

datatype json =
    JUndefined
  | JNull
  | JBool bool
  | JNumber int
  | JString string
  | JArray "json list"
  | JObject "(string \<times> json) list"

record TunnelRequest =
  req_method :: string
  req_path :: string
  req_headers :: "(string \<times> string) list"
  req_body :: json

record TunnelResponse =
  statusCode :: nat
  headers :: "(string \<times> string) list"
  body :: json

text \<open>
  The \<^verbatim>\<open>res\<close> object Express hands to the route, as far as the route's own calls
  go: the headers set on it so far (Express and the \<^verbatim>\<open>cors\<close> middleware of line 23
  have set theirs before the route runs), the status code (200 until
  \<^verbatim>\<open>res.status\<close> is called) and the value the route passed to \<^verbatim>\<open>res.send\<close> or
  \<^verbatim>\<open>res.json\<close>, \<open>None\<close> until it has called one of them. What Express writes on
  the wire for that value (its serialisation, the content headers it computes) is the
  library's and is not modelled.
\<close>

record ServerResponse =
  res_headers :: "(string \<times> string) list"
  res_statusCode :: nat
  res_body :: "json option"

text \<open>
  Node's \<^verbatim>\<open>res.setHeader(name, value)\<close> keeps one entry per lower-cased name: a
  second call for a name, in any case, replaces the entry where it stands. It throws
  when the name is not an HTTP token or the value holds a control character other than
  a tab; \<^verbatim>\<open>res.send\<close> throws when the status code is outside 100 to 999.
\<close>

definition lower_char :: "char \<Rightarrow> char" where
  "lower_char c =
     (if 65 \<le> (of_char c :: nat) \<and> (of_char c :: nat) \<le> 90 then char_of (of_char c + 32 :: nat)
      else c)"

definition lower :: "string \<Rightarrow> string" where
  "lower k = map lower_char k"

definition is_token_char :: "char \<Rightarrow> bool" where
  "is_token_char c =
     (let n = (of_char c :: nat) in
      (48 \<le> n \<and> n \<le> 57) \<or> (65 \<le> n \<and> n \<le> 90) \<or> (97 \<le> n \<and> n \<le> 122)
      \<or> n \<in> set [33, 35, 36, 37, 38, 39, 42, 43, 45, 46, 94, 95, 96, 124, 126])"

definition valid_header :: "string \<times> string \<Rightarrow> bool" where
  "valid_header kv =
     (fst kv \<noteq> [] \<and> list_all is_token_char (fst kv)
      \<and> list_all (\<lambda>c. (of_char c :: nat) = 9 \<or> (32 \<le> (of_char c :: nat) \<and> (of_char c :: nat) \<noteq> 127))
           (snd kv))"

definition valid_status :: "nat \<Rightarrow> bool" where
  "valid_status n = (100 \<le> n \<and> n \<le> 999)"

fun setHeader :: "string \<Rightarrow> string \<Rightarrow> (string \<times> string) list \<Rightarrow> (string \<times> string) list" where
  "setHeader k v [] = [(k, v)]"
| "setHeader k v ((k', v') # hs) =
     (if lower k' = lower k then (k, v) # hs else (k', v') # setHeader k v hs)"


definition res_setHeader :: "ServerResponse \<Rightarrow> string \<times> string \<Rightarrow> ServerResponse" where
  "res_setHeader r kv = r\<lparr>res_headers := setHeader (fst kv) (snd kv) (res_headers r)\<rparr>"

definition res_status :: "nat \<Rightarrow> ServerResponse \<Rightarrow> ServerResponse" where
  "res_status n r = r\<lparr>res_statusCode := n\<rparr>"

definition res_send :: "json \<Rightarrow> ServerResponse \<Rightarrow> ServerResponse" where
  "res_send b r = r\<lparr>res_body := Some b\<rparr>"

text \<open>\<^verbatim>\<open>res.json(obj)\<close> sends the object as the body.\<close>

definition res_json :: "json \<Rightarrow> ServerResponse \<Rightarrow> ServerResponse" where
  "res_json b r = res_send b r"

text \<open>
  \<^verbatim>\<open>Object.entries(response.headers).forEach(...)\<close>: one \<^verbatim>\<open>setHeader\<close> call per
  entry, in order, until one throws; the flag is false when one threw, and \<^verbatim>\<open>res\<close>
  keeps the headers set before it.
\<close>

fun forEach_setHeader :: "(string \<times> string) list \<Rightarrow> ServerResponse \<Rightarrow> bool \<times> ServerResponse" where
  "forEach_setHeader [] r = (True, r)"
| "forEach_setHeader (kv # es) r =
     (if valid_header kv then forEach_setHeader es (res_setHeader r kv) else (False, r))"

section \<open>The relay (the server's index.ts)\<close>

text \<open>
  A socket as the relay sees it after the authentication middleware: its id and
  \<^verbatim>\<open>socket.data.clientId\<close>. \<^verbatim>\<open>ClientConnection\<close> is the record of types.ts;
  \<^verbatim>\<open>Date.now()\<close> is a natural number of milliseconds, passed to each handler.
\<close>

record Socket =
  socket_id :: string
  data_clientId :: string

record ClientConnection =
  socket :: Socket
  authenticated :: bool
  lastHeartbeat :: nat

datatype 'a Promise = Pending | Fulfilled 'a | Rejected string

text \<open>
  One run of the route handler that got past the 503 check, suspended at its
  \<^verbatim>\<open>await\<close>: the request it forwarded, its \<^verbatim>\<open>res\<close>, the promise, whether the
  30000 ms timer is still armed and when it is due, and the socket whose
  \<^verbatim>\<open>emit\<close> carries the acknowledgement callback.
\<close>

record Exchange =
  tunnelRequest :: TunnelRequest
  res :: ServerResponse
  responsePromise :: "TunnelResponse Promise"
  timeout :: bool
  deadline :: nat
  ackSocket :: string

text \<open>
  The relay's state: the module variable \<^verbatim>\<open>activeClient\<close>, the connected sockets
  on which the connection handler has registered its listeners, the suspended route
  handlers by request number, and the number the next request gets.
\<close>

record Relay =
  activeClient :: "ClientConnection option"
  listeners :: "string list"
  exchanges :: "nat \<Rightarrow> Exchange option"
  nextRequest :: nat

definition initial :: Relay where
  "initial = \<lparr>activeClient = None, listeners = [], exchanges = (\<lambda>_. None), nextRequest = 0\<rparr>"

text \<open>
  What a handler does to the outside: messages on a socket, and the end of a caller's
  request. \<open>Respond n r\<close> says that the handler of request \<open>n\<close> has called
  \<^verbatim>\<open>res.send\<close> or \<^verbatim>\<open>res.json\<close>, with \<^verbatim>\<open>res\<close> as \<open>r\<close> records it;
  \<open>UnhandledRejection n e\<close> that it ended with the exception \<open>e\<close> and sent nothing.
\<close>

datatype action =
    EmitError string string
  | SocketDisconnect string
  | EmitHeartbeatAck string
  | EmitTunnelRequest string nat TunnelRequest
  | Respond nat ServerResponse
  | UnhandledRejection nat string

subsection \<open>Socket handlers (lines 69 to 116)\<close>

definition on_connection :: "Socket \<Rightarrow> nat \<Rightarrow> Relay \<Rightarrow> Relay \<times> action list" where
  "on_connection sock now s =
     (case activeClient s of
        Some c \<Rightarrow>
          (s, [EmitError (socket_id sock) ''Another client is already connected'',
               SocketDisconnect (socket_id sock)])
      | None \<Rightarrow>
          (s\<lparr>activeClient := Some \<lparr>socket = sock, authenticated = True, lastHeartbeat = now\<rparr>,
             listeners := socket_id sock # listeners s\<rparr>, []))"

text \<open>
  The heartbeat listener of the socket \<open>sid\<close>: it tests only that some client is
  active, and acknowledges on its own socket.
\<close>

definition on_heartbeat :: "string \<Rightarrow> nat \<Rightarrow> Relay \<Rightarrow> Relay \<times> action list" where
  "on_heartbeat sid now s =
     (case activeClient s of
        Some c \<Rightarrow> (s\<lparr>activeClient := Some (c\<lparr>lastHeartbeat := now\<rparr>)\<rparr>, [EmitHeartbeatAck sid])
      | None \<Rightarrow> (s, []))"

text \<open>The \<^verbatim>\<open>tunnel_response\<close> listener only logs.\<close>

definition on_tunnel_response :: "string \<Rightarrow> TunnelResponse \<Rightarrow> Relay \<Rightarrow> Relay \<times> action list" where
  "on_tunnel_response sid response s = (s, [])"

text \<open>\<^verbatim>\<open>activeClient?.socket.id === socket.id\<close> is false when no client is active.\<close>

definition on_disconnect :: "string \<Rightarrow> Relay \<Rightarrow> Relay \<times> action list" where
  "on_disconnect sid s =
     (if (case activeClient s of None \<Rightarrow> False | Some c \<Rightarrow> socket_id (socket c) = sid)
      then (s\<lparr>activeClient := None\<rparr>, [])
      else (s, []))"

definition on_error :: "string \<Rightarrow> Relay \<Rightarrow> Relay \<times> action list" where
  "on_error sid s = (s, [])"

subsection \<open>The route handler (lines 119 to 182)\<close>

text \<open>
  The part before the \<^verbatim>\<open>await\<close>. The argument \<open>req\<close> holds the four fields the
  handler reads from Express's request (\<^verbatim>\<open>method\<close>, \<^verbatim>\<open>path\<close>, \<^verbatim>\<open>headers\<close>,
  \<^verbatim>\<open>body\<close>), which it copies into the tunnel request. With no active client it
  answers 503 and returns; otherwise it arms the timer, emits the request on the active
  socket and suspends.
\<close>

definition on_request :: "TunnelRequest \<Rightarrow> ServerResponse \<Rightarrow> nat \<Rightarrow> Relay \<Rightarrow> Relay \<times> action list" where
  "on_request req res0 now s =
     (let rid = nextRequest s; s0 = s\<lparr>nextRequest := Suc rid\<rparr> in
      case activeClient s of
        None \<Rightarrow>
          (s0, [Respond rid
                  (res_json (JObject [(''error'', JString ''Tunnel client not connected'')])
                     (res_status 503 res0))])
      | Some c \<Rightarrow>
          (s0\<lparr>exchanges := (exchanges s)(rid \<mapsto>
                 \<lparr>tunnelRequest = req, res = res0, responsePromise = Pending, timeout = True,
                  deadline = now + 30000, ackSocket = socket_id (socket c)\<rparr>)\<rparr>,
           [EmitTunnelRequest (socket_id (socket c)) rid req]))"

text \<open>
  The part after the \<^verbatim>\<open>await\<close>, run when the promise settles. Both log calls read
  \<^verbatim>\<open>activeClient.socket.data.clientId\<close> without a null check: with no active
  client the one in the \<^verbatim>\<open>try\<close> block throws a TypeError into the
  \<^verbatim>\<open>catch\<close> block, and the one in the \<^verbatim>\<open>catch\<close> block throws it out of the
  handler before \<^verbatim>\<open>res.status(500)\<close> is reached. The \<^verbatim>\<open>try\<close> block gives the
  exception thrown in it, if any, and \<^verbatim>\<open>res\<close> as the block left it.
\<close>

definition try_block :: "Exchange \<Rightarrow> Relay \<Rightarrow> string option \<times> ServerResponse" where
  "try_block ex s =
     (case responsePromise ex of
        Pending \<Rightarrow> (Some ''pending'', res ex)
      | Rejected e \<Rightarrow> (Some e, res ex)
      | Fulfilled response \<Rightarrow>
          (case activeClient s of
             None \<Rightarrow> (Some ''TypeError'', res ex)
           | Some c \<Rightarrow>
               (case forEach_setHeader (headers response) (res ex) of
                  (False, r) \<Rightarrow> (Some ''TypeError'', r)
                | (True, r) \<Rightarrow>
                    if valid_status (statusCode response)
                    then (None, res_send (body response) (res_status (statusCode response) r))
                    else (Some ''RangeError'', res_status (statusCode response) r))))"

definition catch_block :: "ServerResponse \<Rightarrow> Relay \<Rightarrow> string + ServerResponse" where
  "catch_block r s =
     (case activeClient s of
        None \<Rightarrow> Inl ''TypeError''
      | Some c \<Rightarrow>
          Inr (res_json (JObject [(''error'', JString ''Failed to process request'')])
                 (res_status 500 r)))"

definition resume :: "nat \<Rightarrow> Exchange \<Rightarrow> Relay \<Rightarrow> Relay \<times> action list" where
  "resume rid ex s =
     (case try_block ex s of
        (None, r) \<Rightarrow> (s\<lparr>exchanges := (exchanges s)(rid \<mapsto> ex\<lparr>res := r\<rparr>)\<rparr>, [Respond rid r])
      | (Some thrown, r) \<Rightarrow>
          (case catch_block r s of
             Inr r' \<Rightarrow> (s\<lparr>exchanges := (exchanges s)(rid \<mapsto> ex\<lparr>res := r'\<rparr>)\<rparr>, [Respond rid r'])
           | Inl e \<Rightarrow> (s\<lparr>exchanges := (exchanges s)(rid \<mapsto> ex\<lparr>res := r\<rparr>)\<rparr>, [UnhandledRejection rid e])))"

text \<open>
  The acknowledgement callback of request \<open>rid\<close>: \<^verbatim>\<open>clearTimeout\<close>, then
  \<^verbatim>\<open>resolve\<close>, which does nothing on a settled promise. The timer callback:
  \<^verbatim>\<open>reject\<close>, likewise. A number no suspended handler has gives nothing to call.
\<close>

definition on_ack :: "nat \<Rightarrow> TunnelResponse \<Rightarrow> Relay \<Rightarrow> Relay \<times> action list" where
  "on_ack rid response s =
     (case exchanges s rid of
        None \<Rightarrow> (s, [])
      | Some ex \<Rightarrow>
          (case responsePromise ex of
             Pending \<Rightarrow> resume rid (ex\<lparr>timeout := False, responsePromise := Fulfilled response\<rparr>) s
           | _ \<Rightarrow> (s\<lparr>exchanges := (exchanges s)(rid \<mapsto> ex\<lparr>timeout := False\<rparr>)\<rparr>, [])))"

definition on_timeout :: "nat \<Rightarrow> Relay \<Rightarrow> Relay \<times> action list" where
  "on_timeout rid s =
     (case exchanges s rid of
        None \<Rightarrow> (s, [])
      | Some ex \<Rightarrow>
          if \<not> timeout ex then (s, [])
          else
            (case responsePromise ex of
               Pending \<Rightarrow>
                 resume rid (ex\<lparr>timeout := False, responsePromise := Rejected ''Request timeout''\<rparr>) s
             | _ \<Rightarrow> (s\<lparr>exchanges := (exchanges s)(rid \<mapsto> ex\<lparr>timeout := False\<rparr>)\<rparr>, [])))"

subsection \<open>Events\<close>

text \<open>
  What the event loop can deliver to the relay. A socket event reaches a listener
  only on a socket that has listeners, that is, one the connection handler accepted,
  and socket.io dispatches nothing to a socket after its \<^verbatim>\<open>disconnect\<close> event: the
  disconnect is the last event the socket's listeners see. Acknowledgements and timers
  are not held back: the model delivers one whenever it comes, also an acknowledgement
  whose socket has gone, so its runs include every run of the relay.
\<close>

datatype event =
    Connection Socket nat
  | Heartbeat string nat
  | TunnelResponseEvent string TunnelResponse
  | Disconnect string
  | SocketError string
  | Request TunnelRequest ServerResponse nat
  | Ack nat TunnelResponse
  | Timeout nat

fun step :: "event \<Rightarrow> Relay \<Rightarrow> Relay \<times> action list" where
  "step (Connection sock now) s = on_connection sock now s"
| "step (Heartbeat sid now) s = (if sid \<in> set (listeners s) then on_heartbeat sid now s else (s, []))"
| "step (TunnelResponseEvent sid r) s =
     (if sid \<in> set (listeners s) then on_tunnel_response sid r s else (s, []))"
| "step (Disconnect sid) s =
     (if sid \<in> set (listeners s)
      then (case on_disconnect sid s of
              (s1, a) \<Rightarrow> (s1\<lparr>listeners := removeAll sid (listeners s1)\<rparr>, a))
      else (s, []))"
| "step (SocketError sid) s = (if sid \<in> set (listeners s) then on_error sid s else (s, []))"
| "step (Request req res0 now) s = on_request req res0 now s"
| "step (Ack rid r) s = on_ack rid r s"
| "step (Timeout rid) s = on_timeout rid s"

fun run :: "event list \<Rightarrow> Relay \<Rightarrow> Relay \<times> action list" where
  "run [] s = (s, [])"
| "run (e # es) s =
     (case step e s of (s1, a1) \<Rightarrow> (case run es s1 of (s2, a2) \<Rightarrow> (s2, a1 @ a2)))"

text \<open>A run of connect attempts by sockets that passed the middleware, and the relay's
  answer to a socket it turns away (lines 78 and 79).\<close>

definition connects :: "(Socket \<times> nat) list \<Rightarrow> event list" where
  "connects conns = map (\<lambda>(sock, now). Connection sock now) conns"

definition rejection :: "Socket \<Rightarrow> action list" where
  "rejection sock =
     [EmitError (socket_id sock) ''Another client is already connected'',
      SocketDisconnect (socket_id sock)]"

text \<open>Sample values for the concrete runs below.\<close>

definition sockA :: Socket where
  "sockA = \<lparr>socket_id = ''a'', data_clientId = ''agent-1''\<rparr>"

definition sockB :: Socket where
  "sockB = \<lparr>socket_id = ''b'', data_clientId = ''agent-2''\<rparr>"

definition getStatus :: TunnelRequest where
  "getStatus = \<lparr>req_method = ''GET'', req_path = ''/status'', req_headers = [], req_body = JUndefined\<rparr>"

definition res200 :: ServerResponse where
  "res200 = \<lparr>res_headers = [], res_statusCode = 200, res_body = None\<rparr>"

text \<open>The answers a caller has been given: \<^verbatim>\<open>res\<close> sent, or the handler's promise
  rejected with nothing sent.\<close>

fun is_outcome :: "nat \<Rightarrow> action \<Rightarrow> bool" where
  "is_outcome rid (Respond n r) = (n = rid)"
| "is_outcome rid (UnhandledRejection n e) = (n = rid)"
| "is_outcome rid _ = False"

definition outcomes :: "nat \<Rightarrow> action list \<Rightarrow> action list" where
  "outcomes rid acts = filter (is_outcome rid) acts"

definition pending :: "Relay \<Rightarrow> nat \<Rightarrow> bool" where
  "pending s rid =
     (case exchanges s rid of None \<Rightarrow> False | Some ex \<Rightarrow> responsePromise ex = Pending)"

definition settled :: "Relay \<Rightarrow> nat \<Rightarrow> bool" where
  "settled s rid =
     (case exchanges s rid of None \<Rightarrow> False | Some ex \<Rightarrow> responsePromise ex \<noteq> Pending)"

section \<open>The relay's credential check (lines 32 to 66) and generateToken.ts\<close>

text \<open>
  The jsonwebtoken library is not part of the repository. A token string is taken for
  what the library makes of it: either nothing it can parse, or a payload signed with
  some secret. \<^verbatim>\<open>jwt.verify\<close>, called with no options, returns the payload exactly
  when the token was signed with the secret it is given, its \<^verbatim>\<open>nbf\<close> claim, if any,
  is not in the future and its \<^verbatim>\<open>exp\<close> claim, if any, is (the library's clock
  counts seconds); otherwise it throws. The payload's fields are optional, since the
  middleware tests them at run time.
\<close>

record JWTPayload =
  clientId :: "string option"
  payload_type :: "string option"
  iat :: "nat option"
  nbf :: "nat option"
  exp :: "nat option"

datatype token = Malformed | Signed string JWTPayload

definition jwt_sign :: "JWTPayload \<Rightarrow> string \<Rightarrow> nat \<Rightarrow> nat \<Rightarrow> token" where
  "jwt_sign payload secret expiresIn now =
     Signed secret (payload\<lparr>iat := Some (now div 1000), exp := Some (now div 1000 + expiresIn)\<rparr>)"

definition jwt_verify :: "token \<Rightarrow> string \<Rightarrow> nat \<Rightarrow> string + JWTPayload" where
  "jwt_verify tok secret now =
     (case tok of
        Malformed \<Rightarrow> Inl ''jwt malformed''
      | Signed signedWith payload \<Rightarrow>
          if signedWith \<noteq> secret then Inl ''invalid signature''
          else if (case nbf payload of None \<Rightarrow> False | Some n \<Rightarrow> now div 1000 < n)
          then Inl ''jwt not active''
          else (case exp payload of
                  None \<Rightarrow> Inr payload
                | Some e \<Rightarrow> if e \<le> now div 1000 then Inl ''jwt expired'' else Inr payload))"

text \<open>\<^verbatim>\<open>process.env.JWT_SECRET || 'default-secret'\<close>: unset and empty both fall back.\<close>

record Env =
  JWT_SECRET :: "string option"

definition secret_of :: "Env \<Rightarrow> string" where
  "secret_of env =
     (case JWT_SECRET env of
        None \<Rightarrow> ''default-secret''
      | Some s \<Rightarrow> if s = [] then ''default-secret'' else s)"

text \<open>
  The token of the handshake: absent when \<^verbatim>\<open>!token\<close> holds, a value that is not a
  string, or a non-empty string. The middleware ends in one of three ways: it calls
  \<^verbatim>\<open>next()\<close> after storing the client id in \<^verbatim>\<open>socket.data\<close>, it calls
  \<^verbatim>\<open>next\<close> with an error, or it throws without calling \<^verbatim>\<open>next\<close>. The last
  happens for a token that is not a string: \<^verbatim>\<open>jwt.verify\<close> throws, and in the
  \<^verbatim>\<open>catch\<close> block \<^verbatim>\<open>token.substring\<close> is not a function.
\<close>

datatype handshake_token = Absent | NotAString | Presented token

datatype auth_outcome = NextOk string | NextError string | Thrown string

definition authenticate :: "Env \<Rightarrow> nat \<Rightarrow> handshake_token \<Rightarrow> auth_outcome" where
  "authenticate env now handshake =
     (case handshake of
        Absent \<Rightarrow> NextError ''Authentication token required''
      | NotAString \<Rightarrow> Thrown ''TypeError''
      | Presented tok \<Rightarrow>
          (case jwt_verify tok (secret_of env) now of
             Inl err \<Rightarrow> NextError ''Invalid token''
           | Inr decoded \<Rightarrow>
               (case clientId decoded of
                  None \<Rightarrow> NextError ''Invalid token payload''
                | Some cid \<Rightarrow>
                    if cid = [] \<or> payload_type decoded \<noteq> Some ''tunnel-client''
                    then NextError ''Invalid token payload''
                    else NextOk cid)))"

text \<open>generateToken.ts; the uuid is the caller's, \<^verbatim>\<open>'30d'\<close> is 2592000 seconds.\<close>

definition generateToken :: "Env \<Rightarrow> string \<Rightarrow> nat \<Rightarrow> token" where
  "generateToken env uuid now =
     jwt_sign \<lparr>clientId = Some uuid, payload_type = Some ''tunnel-client'', iat = None, nbf = None,
               exp = None\<rparr>
       (secret_of env) 2592000 now"

section \<open>The agent (the client's index.ts)\<close>

record TunnelConfig =
  serverUrl :: string
  authToken :: string
  localPort :: nat
  localHost :: string
  heartbeatInterval :: nat
  requestTimeout :: nat
  reconnectInterval :: nat

subsection \<open>Forwarding a request (lines 90 to 162)\<close>

text \<open>
  axios is the local-service collaborator: a function from the request it is given to
  the response, or to the error it throws. \<^verbatim>\<open>validateStatus: () => true\<close> means no
  status code makes it throw.
\<close>

record AxiosRequestConfig =
  ax_method :: string
  ax_url :: string
  ax_headers :: "(string \<times> string) list"
  ax_data :: json
  ax_timeout :: nat

record AxiosResponse =
  response_status :: nat
  response_headers :: "(string \<times> string) list"
  response_data :: json

record JsError =
  error_code :: "string option"
  error_message :: string

type_synonym axios = "AxiosRequestConfig \<Rightarrow> JsError + AxiosResponse"

fun string_of_nat :: "nat \<Rightarrow> string" where
  "string_of_nat n =
     (if n < 10 then [char_of (48 + n)]
      else string_of_nat (n div 10) @ [char_of (48 + n mod 10)])"

definition localUrl :: "TunnelConfig \<Rightarrow> TunnelRequest \<Rightarrow> string" where
  "localUrl config request =
     ''http://'' @ localHost config @ '':'' @ string_of_nat (localPort config) @ req_path request"

definition axios_config :: "TunnelConfig \<Rightarrow> TunnelRequest \<Rightarrow> AxiosRequestConfig" where
  "axios_config config request =
     \<lparr>ax_method = req_method request, ax_url = localUrl config request,
      ax_headers = req_headers request, ax_data = req_body request,
      ax_timeout = requestTimeout config\<rparr>"

definition handleTunnelRequest :: "TunnelConfig \<Rightarrow> axios \<Rightarrow> TunnelRequest \<Rightarrow> JsError + TunnelResponse" where
  "handleTunnelRequest config axios request =
     (case axios (axios_config config request) of
        Inr response \<Rightarrow>
          Inr \<lparr>statusCode = response_status response, headers = response_headers response,
               body = response_data response\<rparr>
      | Inl error \<Rightarrow>
          if error_code error = Some ''ECONNREFUSED''
          then Inl \<lparr>error_code = None, error_message = ''Local service is not running''\<rparr>
          else Inl error)"

text \<open>The \<^verbatim>\<open>tunnel_request\<close> listener: the list of the calls it makes to \<^verbatim>\<open>callback\<close>.\<close>

definition on_tunnel_request :: "TunnelConfig \<Rightarrow> axios \<Rightarrow> TunnelRequest \<Rightarrow> TunnelResponse list" where
  "on_tunnel_request config axios request =
     (case handleTunnelRequest config axios request of
        Inr response \<Rightarrow> [response]
      | Inl error \<Rightarrow>
          [\<lparr>statusCode = 500, headers = [],
            body = JObject [(''error'', JString (error_message error))]\<rparr>])"

subsection \<open>The connection controller (lines 34 to 89 and 164 to 207)\<close>

text \<open>
  The object's fields, and around them what the runtime holds: the sockets created so
  far with their \<^verbatim>\<open>connected\<close> flags (\<^verbatim>\<open>this.socket\<close> is an index into them), the
  armed timers by handle, and the next fresh handle. The two private fields that hold
  timer handles carry a suffix, the configuration has a field of the same name.
\<close>

datatype timer = HeartbeatTimer | ReconnectTimer

record TunnelClient =
  config :: TunnelConfig
  this_socket :: "nat option"
  heartbeatInterval_handle :: "nat option"
  reconnectTimeout_handle :: "nat option"
  sockets :: "bool list"
  timers :: "(nat \<times> timer \<times> nat) list"
  nextHandle :: nat

datatype agent_action =
    Io nat string
  | EmitHeartbeat nat
  | Callback nat TunnelResponse

definition new_client :: "TunnelConfig \<Rightarrow> TunnelClient" where
  "new_client cfg =
     \<lparr>config = cfg, this_socket = None, heartbeatInterval_handle = None,
      reconnectTimeout_handle = None, sockets = [], timers = [], nextHandle = 0\<rparr>"

definition socket_connected :: "TunnelClient \<Rightarrow> bool" where
  "socket_connected a =
     (case this_socket a of None \<Rightarrow> False | Some n \<Rightarrow> n < length (sockets a) \<and> sockets a ! n)"

definition clearTimer :: "nat \<Rightarrow> TunnelClient \<Rightarrow> TunnelClient" where
  "clearTimer h a = a\<lparr>timers := filter (\<lambda>t. fst t \<noteq> h) (timers a)\<rparr>"

definition startHeartbeat :: "TunnelClient \<Rightarrow> TunnelClient" where
  "startHeartbeat a =
     (let a1 = (case heartbeatInterval_handle a of None \<Rightarrow> a | Some h \<Rightarrow> clearTimer h a) in
      a1\<lparr>heartbeatInterval_handle := Some (nextHandle a1),
         timers := timers a1 @ [(nextHandle a1, HeartbeatTimer, heartbeatInterval (config a1))],
         nextHandle := Suc (nextHandle a1)\<rparr>)"

definition stopHeartbeat :: "TunnelClient \<Rightarrow> TunnelClient" where
  "stopHeartbeat a =
     (case heartbeatInterval_handle a of
        None \<Rightarrow> a
      | Some h \<Rightarrow> (clearTimer h a)\<lparr>heartbeatInterval_handle := None\<rparr>)"

definition scheduleReconnect :: "TunnelClient \<Rightarrow> TunnelClient" where
  "scheduleReconnect a =
     (let a1 = (case reconnectTimeout_handle a of None \<Rightarrow> a | Some h \<Rightarrow> clearTimer h a) in
      a1\<lparr>reconnectTimeout_handle := Some (nextHandle a1),
         timers := timers a1 @ [(nextHandle a1, ReconnectTimer, reconnectInterval (config a1))],
         nextHandle := Suc (nextHandle a1)\<rparr>)"

text \<open>
  \<^verbatim>\<open>connect()\<close>: \<^verbatim>\<open>io(...)\<close> returns a new, not yet connected socket at once and
  never throws for an unreachable or refusing server, so the method always returns
  normally, and the \<^verbatim>\<open>catch\<close> branch of the reconnect timer's callback (lines 202 to
  205) is never entered.
\<close>

definition connect :: "TunnelClient \<Rightarrow> TunnelClient \<times> agent_action list" where
  "connect a =
     (if socket_connected a then (a, [])
      else
        (startHeartbeat (a\<lparr>this_socket := Some (length (sockets a)), sockets := sockets a @ [False]\<rparr>),
         [Io (length (sockets a)) (authToken (config a))]))"

definition start :: "TunnelConfig \<Rightarrow> TunnelClient \<times> agent_action list" where
  "start cfg = connect (new_client cfg)"

text \<open>The listeners of \<^verbatim>\<open>setupSocketListeners\<close> and the two timer callbacks.\<close>

definition on_connect :: "TunnelClient \<Rightarrow> TunnelClient" where
  "on_connect a =
     (case reconnectTimeout_handle a of
        None \<Rightarrow> a
      | Some h \<Rightarrow> (clearTimer h a)\<lparr>reconnectTimeout_handle := None\<rparr>)"

definition on_socket_disconnect :: "TunnelClient \<Rightarrow> TunnelClient" where
  "on_socket_disconnect a = scheduleReconnect (stopHeartbeat a)"

definition heartbeat_tick :: "TunnelClient \<Rightarrow> TunnelClient \<times> agent_action list" where
  "heartbeat_tick a =
     (case this_socket a of
        None \<Rightarrow> (a, [])
      | Some n \<Rightarrow> if socket_connected a then (a, [EmitHeartbeat n]) else (a, []))"

text \<open>
  The events the agent's event loop delivers. The transport sets a socket's
  \<^verbatim>\<open>connected\<close> flag before it calls the \<^verbatim>\<open>connect\<close> and \<^verbatim>\<open>disconnect\<close>
  listeners. A failed handshake (server unreachable, or the middleware's
  \<^verbatim>\<open>next(new Error(...))\<close>) is reported as \<^verbatim>\<open>connect_error\<close>, for which the
  source registers no listener; its \<^verbatim>\<open>error\<close> listener only logs. A timeout fires
  once, an interval stays armed.
\<close>

datatype agent_event =
    SocketConnect nat
  | SocketDisconnected nat
  | ConnectError nat
  | ErrorEvent nat
  | HeartbeatAck nat
  | TunnelRequestEvent nat TunnelRequest
  | Fire nat

definition agent_step :: "axios \<Rightarrow> agent_event \<Rightarrow> TunnelClient \<Rightarrow> TunnelClient \<times> agent_action list" where
  "agent_step axios ev a =
     (case ev of
        SocketConnect n \<Rightarrow>
          if n < length (sockets a) \<and> \<not> sockets a ! n
          then (on_connect (a\<lparr>sockets := (sockets a)[n := True]\<rparr>), [])
          else (a, [])
      | SocketDisconnected n \<Rightarrow>
          if n < length (sockets a) \<and> sockets a ! n
          then (on_socket_disconnect (a\<lparr>sockets := (sockets a)[n := False]\<rparr>), [])
          else (a, [])
      | ConnectError n \<Rightarrow> (a, [])
      | ErrorEvent n \<Rightarrow> (a, [])
      | HeartbeatAck n \<Rightarrow> (a, [])
      | TunnelRequestEvent n request \<Rightarrow>
          if n < length (sockets a) \<and> sockets a ! n
          then (a, map (Callback n) (on_tunnel_request (config a) axios request))
          else (a, [])
      | Fire h \<Rightarrow>
          (case map_of (timers a) h of
             None \<Rightarrow> (a, [])
           | Some (HeartbeatTimer, d) \<Rightarrow> heartbeat_tick a
           | Some (ReconnectTimer, d) \<Rightarrow> connect (clearTimer h a)))"

fun agent_run :: "axios \<Rightarrow> agent_event list \<Rightarrow> TunnelClient \<Rightarrow> TunnelClient \<times> agent_action list" where
  "agent_run axios [] a = (a, [])"
| "agent_run axios (e # es) a =
     (case agent_step axios e a of (a1, x1) \<Rightarrow>
        (case agent_run axios es a1 of (a2, x2) \<Rightarrow> (a2, x1 @ x2)))"

text \<open>A sample configuration and two local services: one that refuses the connection, one
  that answers 200.\<close>

definition sampleConfig :: TunnelConfig where
  "sampleConfig = \<lparr>serverUrl = ''http://localhost:3000'', authToken = ''t'', localPort = 3300,
     localHost = ''localhost'', heartbeatInterval = 30000, requestTimeout = 30000,
     reconnectInterval = 5000\<rparr>"

definition refusing :: axios where
  "refusing cfg = Inl \<lparr>error_code = Some ''ECONNREFUSED'', error_message = ''connect ECONNREFUSED''\<rparr>"

definition okService :: axios where
  "okService cfg =
     Inr \<lparr>response_status = 200, response_headers = [(''content-type'', ''application/json'')],
          response_data = JObject [(''ok'', JBool True)]\<rparr>"


text \<open>The listeners are those of the active client's socket and of no other.\<close>

definition attached_only :: "Relay \<Rightarrow> bool" where
  "attached_only s =
     (set (listeners s) = (case activeClient s of None \<Rightarrow> {} | Some c \<Rightarrow> {socket_id (socket c)}))"

text \<open>
  The bookkeeping of answers: every request number handed out so far has been answered
  exactly once or is the number of a handler still pending with its timer armed; a
  settled handler's timer is off.
\<close>

definition answered_once :: "Relay \<Rightarrow> action list \<Rightarrow> bool" where
  "answered_once s acts =
     ((\<forall>rid ex. exchanges s rid = Some ex \<longrightarrow>
         rid < nextRequest s
         \<and> (if responsePromise ex = Pending then timeout ex \<and> outcomes rid acts = []
            else \<not> timeout ex \<and> length (outcomes rid acts) = 1))
      \<and> (\<forall>rid. exchanges s rid = None \<longrightarrow>
         length (outcomes rid acts) = (if rid < nextRequest s then 1 else 0)))"

text \<open>
  The reconnect timers that are armed, and the discipline the controller keeps: none, or
  exactly one, with the configured delay, whose handle is the one stored in
  \<^verbatim>\<open>reconnectTimeout\<close>.
\<close>

definition reconnect_timers :: "TunnelClient \<Rightarrow> (nat \<times> timer \<times> nat) list" where
  "reconnect_timers a = filter (\<lambda>t. fst (snd t) = ReconnectTimer) (timers a)"

definition one_reconnect :: "TunnelClient \<Rightarrow> bool" where
  "one_reconnect a =
     (reconnect_timers a = []
      \<or> (\<exists>h. reconnect_timers a = [(h, ReconnectTimer, reconnectInterval (config a))]
             \<and> reconnectTimeout_handle a = Some h))"

section \<open>No session: immediate 503\<close>

text \<open>
  C7. A request that arrives while no client is active is answered at once with status
  503 and the body \<^verbatim>\<open>{ error: 'Tunnel client not connected' }\<close>: the handler's only
  action is that answer, no request is emitted on any socket, and no suspended handler
  (so no timer) is added.
\<close>

theorem no_session_fast_fail:
  assumes "activeClient s = None"
  shows "snd (on_request req res0 now s) =
           [Respond (nextRequest s)
              \<lparr>res_headers = res_headers res0, res_statusCode = 503,
               res_body = Some (JObject [(''error'', JString ''Tunnel client not connected'')])\<rparr>]
         \<and> exchanges (fst (on_request req res0 now s)) = exchanges s
         \<and> activeClient (fst (on_request req res0 now s)) = None
         \<and> listeners (fst (on_request req res0 now s)) = listeners s"
  using assms
  by (simp add: on_request_def Let_def res_json_def res_send_def res_status_def)

theorem no_session_fast_fail_witness:
  "activeClient initial = None
   \<and> snd (step (Request getStatus res200 7) initial) =
       [Respond 0 \<lparr>res_headers = [], res_statusCode = 503,
          res_body = Some (JObject [(''error'', JString ''Tunnel client not connected'')])\<rparr>]
   \<and> exchanges (fst (step (Request getStatus res200 7) initial)) 0 = None"
proof -
  have h: "activeClient initial = None" by (simp add: initial_def)
  show ?thesis
    using h no_session_fast_fail [OF h, of getStatus res200 7]
    by (simp add: initial_def res200_def)
qed

section \<open>One session at a time\<close>

lemma on_connection_active:
  "activeClient s = Some c \<Longrightarrow> on_connection sock now s = (s, rejection sock)"
  by (simp add: on_connection_def rejection_def)

lemma on_connection_idle:
  "activeClient s = None \<Longrightarrow>
   on_connection sock now s =
     (s\<lparr>activeClient := Some \<lparr>socket = sock, authenticated = True, lastHeartbeat = now\<rparr>,
        listeners := socket_id sock # listeners s\<rparr>, [])"
  by (simp add: on_connection_def)

lemma run_connects_active:
  "activeClient s = Some c \<Longrightarrow>
   run (connects conns) s = (s, concat (map (\<lambda>(sock, now). rejection sock) conns))"
proof (induction conns)
  case Nil
  show ?case by (simp add: connects_def)
next
  case (Cons a conns)
  obtain sock now where a: "a = (sock, now)" by (cases a)
  from Cons show ?case
    by (simp add: a connects_def on_connection_active)
qed

text \<open>
  C1. While a client is active, the connection handler turns every further socket away:
  it emits the error \<^verbatim>\<open>'Another client is already connected'\<close> on that socket,
  disconnects it, and returns the state as it was (the active client, the suspended
  requests, the listeners). So does every run of connect attempts that starts with a
  client active. From a state with no active client, the first socket of such a run
  becomes the active client and every later one is turned away.
\<close>

theorem single_session_exclusive:
  "(activeClient s = Some c \<longrightarrow>
      on_connection sock now s = (s, rejection sock)
      \<and> run (connects conns) s = (s, concat (map (\<lambda>(sock, now). rejection sock) conns)))
   \<and> (activeClient s = None \<longrightarrow>
      run (connects ((sock, now) # conns)) s =
        (s\<lparr>activeClient := Some \<lparr>socket = sock, authenticated = True, lastHeartbeat = now\<rparr>,
           listeners := socket_id sock # listeners s\<rparr>,
         concat (map (\<lambda>(sock, now). rejection sock) conns)))"
proof (intro conjI impI)
  assume "activeClient s = Some c"
  then show "on_connection sock now s = (s, rejection sock)"
    by (rule on_connection_active)
next
  assume "activeClient s = Some c"
  then show "run (connects conns) s = (s, concat (map (\<lambda>(sock, now). rejection sock) conns))"
    by (rule run_connects_active)
next
  assume idle: "activeClient s = None"
  let ?s1 = "s\<lparr>activeClient := Some \<lparr>socket = sock, authenticated = True, lastHeartbeat = now\<rparr>,
           listeners := socket_id sock # listeners s\<rparr>"
  have "activeClient ?s1 = Some \<lparr>socket = sock, authenticated = True, lastHeartbeat = now\<rparr>"
    by simp
  then have "run (connects conns) ?s1 = (?s1, concat (map (\<lambda>(sock, now). rejection sock) conns))"
    by (rule run_connects_active)
  then show "run (connects ((sock, now) # conns)) s =
        (?s1, concat (map (\<lambda>(sock, now). rejection sock) conns))"
    using idle by (simp add: connects_def on_connection_idle)
qed

theorem single_session_exclusive_witness:
  "activeClient (fst (run [Connection sockA 0, Request getStatus res200 1] initial)) =
      Some \<lparr>socket = sockA, authenticated = True, lastHeartbeat = 0\<rparr>
   \<and> run (connects [(sockB, 5), (sockB, 9)])
        (fst (run [Connection sockA 0, Request getStatus res200 1] initial)) =
       (fst (run [Connection sockA 0, Request getStatus res200 1] initial),
        [EmitError ''b'' ''Another client is already connected'', SocketDisconnect ''b'',
         EmitError ''b'' ''Another client is already connected'', SocketDisconnect ''b''])
   \<and> activeClient initial = None
   \<and> activeClient (fst (run (connects [(sockA, 0), (sockB, 5)]) initial)) =
       Some \<lparr>socket = sockA, authenticated = True, lastHeartbeat = 0\<rparr>
   \<and> snd (run (connects [(sockA, 0), (sockB, 5)]) initial) =
       [EmitError ''b'' ''Another client is already connected'', SocketDisconnect ''b'']"
proof -
  let ?s = "fst (run [Connection sockA 0, Request getStatus res200 1] initial)"
  let ?c = "\<lparr>socket = sockA, authenticated = True, lastHeartbeat = 0\<rparr>"
  have a: "activeClient ?s = Some ?c"
    by (simp add: initial_def on_connection_def on_request_def Let_def)
  have i: "activeClient initial = None" by (simp add: initial_def)
  from single_session_exclusive [of ?s ?c sockB 5 "[(sockB, 5), (sockB, 9)]"] a
  have 1: "run (connects [(sockB, 5), (sockB, 9)]) ?s = (?s, rejection sockB @ rejection sockB)"
    by simp
  from single_session_exclusive [of initial ?c sockA 0 "[(sockB, 5)]"] i
  have 2: "run (connects [(sockA, 0), (sockB, 5)]) initial =
    (initial\<lparr>activeClient := Some ?c, listeners := socket_id sockA # listeners initial\<rparr>,
     rejection sockB)"
    by simp
  show ?thesis
    using a i 1 2 by (simp add: rejection_def sockB_def)
qed

section \<open>Losing the agent\<close>

text \<open>
  C2, as the claim states it, fails: after the active socket disconnects with two
  requests in flight, no client is active, yet both requests are still pending and no
  caller has been answered (the relay's only actions were the two emits).
\<close>

theorem disconnect_resolves_nothing_counterexample:
  "activeClient (fst (run [Connection sockA 0, Request getStatus res200 1,
        Request getStatus res200 2, Disconnect ''a''] initial)) = None
   \<and> pending (fst (run [Connection sockA 0, Request getStatus res200 1,
        Request getStatus res200 2, Disconnect ''a''] initial)) 0
   \<and> pending (fst (run [Connection sockA 0, Request getStatus res200 1,
        Request getStatus res200 2, Disconnect ''a''] initial)) 1
   \<and> snd (run [Connection sockA 0, Request getStatus res200 1,
        Request getStatus res200 2, Disconnect ''a''] initial) =
       [EmitTunnelRequest ''a'' 0 getStatus, EmitTunnelRequest ''a'' 1 getStatus]"
  by (simp add: initial_def on_connection_def on_disconnect_def on_request_def Let_def sockA_def
      pending_def)

text \<open>
  C2, amended. A disconnect event detaches the session when it comes from the active
  client's socket and changes nothing otherwise; in both cases it answers no caller and
  leaves every suspended request as it was, so a request pending before is pending
  after, its timer still armed.
\<close>

theorem disconnect_detaches_only:
  "exchanges (fst (step (Disconnect sid) s)) = exchanges s
   \<and> snd (step (Disconnect sid) s) = []
   \<and> activeClient (fst (on_disconnect sid s)) =
       (if (\<exists>c. activeClient s = Some c \<and> socket_id (socket c) = sid) then None else activeClient s)
   \<and> pending (fst (step (Disconnect sid) s)) rid = pending s rid"
  by (auto simp add: on_disconnect_def pending_def split: option.splits)

theorem disconnect_detaches_only_witness:
  "activeClient (fst (on_disconnect ''a''
      (fst (run [Connection sockA 0, Request getStatus res200 1] initial)))) = None
   \<and> pending (fst (step (Disconnect ''a'')
      (fst (run [Connection sockA 0, Request getStatus res200 1] initial)))) 0"
  using disconnect_detaches_only [of "''a''"
      "fst (run [Connection sockA 0, Request getStatus res200 1] initial)" 0]
  by (simp add: initial_def on_connection_def on_request_def Let_def sockA_def pending_def)

section \<open>The timeout\<close>

text \<open>
  C3 fails on the code where the agent has gone by the time the timer fires: the
  \<^verbatim>\<open>catch\<close> block reads \<^verbatim>\<open>activeClient.socket\<close> of the null
  \<^verbatim>\<open>activeClient\<close> before it reaches \<^verbatim>\<open>res.status(500)\<close>, so the handler ends
  with an unhandled TypeError and the caller is sent nothing.
\<close>

theorem timeout_after_disconnect_no_response:
  "snd (run [Connection sockA 0, Request getStatus res200 1, Disconnect ''a'', Timeout 0] initial) =
     [EmitTunnelRequest ''a'' 0 getStatus, UnhandledRejection 0 ''TypeError'']"
  by (simp add: initial_def on_connection_def on_disconnect_def on_request_def on_timeout_def
      resume_def try_block_def catch_block_def Let_def sockA_def)

text \<open>With a client active when the timer fires, the caller gets status 500.\<close>

lemma timeout_with_session:
  assumes "exchanges s rid = Some ex" "responsePromise ex = Pending" "timeout ex"
    "activeClient s = Some c"
  shows "snd (on_timeout rid s) =
     [Respond rid ((res ex)\<lparr>res_statusCode := 500,
        res_body := Some (JObject [(''error'', JString ''Failed to process request'')])\<rparr>)]"
  using assms
  by (simp add: on_timeout_def resume_def try_block_def catch_block_def res_json_def
      res_send_def res_status_def)

lemma request_arms_30000:
  assumes "activeClient s = Some c"
  shows "map_option deadline (exchanges (fst (on_request req res0 now s)) (nextRequest s)) =
           Some (now + 30000)"
  using assms by (simp add: on_request_def Let_def)

section \<open>Heartbeats\<close>

text \<open>
  The listeners registered are always those of the active client's socket: the
  connection handler registers them on the socket it has just made the active client,
  and only that socket's disconnect, after which the socket receives nothing, clears
  \<^verbatim>\<open>activeClient\<close>.
\<close>

lemma attached_only_step:
  assumes "attached_only s"
  shows "attached_only (fst (step e s))"
proof (cases e)
  case (Connection sock now)
  with assms show ?thesis
    by (cases "activeClient s") (auto simp add: attached_only_def on_connection_def)
next
  case (Heartbeat sid now)
  with assms show ?thesis
    by (cases "activeClient s") (auto simp add: attached_only_def on_heartbeat_def)
next
  case (Disconnect sid)
  with assms show ?thesis
    by (cases "activeClient s") (auto simp add: attached_only_def on_disconnect_def)
next
  case (Request req res0 now)
  with assms show ?thesis
    by (cases "activeClient s") (auto simp add: attached_only_def on_request_def Let_def)
next
  case (Ack rid r)
  have "listeners (fst (resume rid ex s)) = listeners s
      \<and> activeClient (fst (resume rid ex s)) = activeClient s" for ex
    by (simp add: resume_def split: prod.splits option.splits sum.splits)
  with assms Ack show ?thesis
    by (auto simp add: attached_only_def on_ack_def split: option.splits Promise.splits)
next
  case (Timeout rid)
  have "listeners (fst (resume rid ex s)) = listeners s
      \<and> activeClient (fst (resume rid ex s)) = activeClient s" for ex
    by (simp add: resume_def split: prod.splits option.splits sum.splits)
  with assms Timeout show ?thesis
    by (auto simp add: attached_only_def on_timeout_def split: option.splits Promise.splits)
qed (use assms in \<open>simp_all add: on_tunnel_response_def on_error_def\<close>)

lemma attached_only_run: "attached_only s \<Longrightarrow> attached_only (fst (run evs s))"
proof (induction evs arbitrary: s)
  case Nil
  then show ?case by simp
next
  case (Cons e evs)
  from Cons.IH [OF attached_only_step [OF Cons.prems, of e]] show ?case
    by (simp add: split_def)
qed

lemma attached_only_initial: "attached_only initial"
  by (simp add: attached_only_def initial_def)

text \<open>
  C4. In every state the relay reaches, a heartbeat on a socket that is not the active
  client's changes nothing and is not acknowledged, and a heartbeat on the active
  client's socket sets that session's \<^verbatim>\<open>lastHeartbeat\<close> to the time it arrives,
  changes nothing else, and is acknowledged on that socket. The listener itself tests
  only that some client is active; a socket other than the active client's has no
  listener for the heartbeat to reach.
\<close>

theorem keepalive_only_from_attached:
  assumes "run evs initial = (s, acts)"
  shows "((\<forall>c. activeClient s = Some c \<longrightarrow> socket_id (socket c) \<noteq> sid) \<longrightarrow>
            step (Heartbeat sid now) s = (s, []))
    \<and> (activeClient s = Some c \<and> socket_id (socket c) = sid \<longrightarrow>
            step (Heartbeat sid now) s =
              (s\<lparr>activeClient := Some (c\<lparr>lastHeartbeat := now\<rparr>)\<rparr>, [EmitHeartbeatAck sid]))"
proof -
  have inv: "attached_only s"
    using attached_only_run [OF attached_only_initial, of evs] assms by simp
  have stale: "step (Heartbeat sid now) s = (s, [])"
    if "\<forall>c. activeClient s = Some c \<longrightarrow> socket_id (socket c) \<noteq> sid"
  proof -
    from inv that have "sid \<notin> set (listeners s)"
      by (cases "activeClient s") (auto simp add: attached_only_def)
    then show ?thesis by simp
  qed
  have own: "step (Heartbeat sid now) s =
              (s\<lparr>activeClient := Some (c\<lparr>lastHeartbeat := now\<rparr>)\<rparr>, [EmitHeartbeatAck sid])"
    if "activeClient s = Some c \<and> socket_id (socket c) = sid"
  proof -
    from inv that have "sid \<in> set (listeners s)"
      by (auto simp add: attached_only_def)
    with that show ?thesis by (simp add: on_heartbeat_def)
  qed
  from stale own show ?thesis by blast
qed

theorem keepalive_only_from_attached_witness:
  "activeClient (fst (run [Connection sockA 0, Disconnect ''a'', Connection sockB 100] initial)) =
     Some \<lparr>socket = sockB, authenticated = True, lastHeartbeat = 100\<rparr>
   \<and> step (Heartbeat ''a'' 200)
       (fst (run [Connection sockA 0, Disconnect ''a'', Connection sockB 100] initial)) =
     (fst (run [Connection sockA 0, Disconnect ''a'', Connection sockB 100] initial), [])
   \<and> activeClient (fst (step (Heartbeat ''b'' 200)
       (fst (run [Connection sockA 0, Disconnect ''a'', Connection sockB 100] initial)))) =
     Some \<lparr>socket = sockB, authenticated = True, lastHeartbeat = 200\<rparr>
   \<and> snd (step (Heartbeat ''b'' 200)
       (fst (run [Connection sockA 0, Disconnect ''a'', Connection sockB 100] initial))) =
     [EmitHeartbeatAck ''b'']"
proof -
  let ?evs = "[Connection sockA 0, Disconnect ''a'', Connection sockB 100]"
  let ?s = "fst (run ?evs initial)"
  let ?c = "\<lparr>socket = sockB, authenticated = True, lastHeartbeat = 100\<rparr>"
  have a: "activeClient ?s = Some ?c"
    by (simp add: initial_def on_connection_def on_disconnect_def sockA_def)
  have r: "run ?evs initial = (?s, snd (run ?evs initial))" by simp
  have ne: "\<forall>c. activeClient ?s = Some c \<longrightarrow> socket_id (socket c) \<noteq> ''a''"
    using a by (simp add: sockB_def)
  have eq: "activeClient ?s = Some ?c \<and> socket_id (socket ?c) = ''b''"
    using a by (simp add: sockB_def)
  have 1: "step (Heartbeat ''a'' 200) ?s = (?s, [])"
    using keepalive_only_from_attached [OF r, of "''a''" 200 ?c] ne by blast
  have 2: "step (Heartbeat ''b'' 200) ?s =
      (?s\<lparr>activeClient := Some (?c\<lparr>lastHeartbeat := 200\<rparr>)\<rparr>, [EmitHeartbeatAck ''b''])"
    using keepalive_only_from_attached [OF r, of "''b''" 200 ?c] eq by blast
  have 3: "activeClient (fst (step (Heartbeat ''b'' 200) ?s)) =
      Some \<lparr>socket = sockB, authenticated = True, lastHeartbeat = 200\<rparr>"
    unfolding 2 by simp
  have 4: "snd (step (Heartbeat ''b'' 200) ?s) = [EmitHeartbeatAck ''b'']"
    unfolding 2 by simp
  from a 1 3 4 show ?thesis by blast
qed

section \<open>The agent's answer\<close>

lemma on_tunnel_request_ok:
  "axios (axios_config cfg request) = Inr r \<Longrightarrow>
   on_tunnel_request cfg axios request =
     [\<lparr>statusCode = response_status r, headers = response_headers r, body = response_data r\<rparr>]"
  by (simp add: on_tunnel_request_def handleTunnelRequest_def)

lemma on_tunnel_request_error:
  "axios (axios_config cfg request) = Inl e \<Longrightarrow>
   on_tunnel_request cfg axios request =
     [\<lparr>statusCode = 500, headers = [],
       body = JObject [(''error'', JString
         (if error_code e = Some ''ECONNREFUSED'' then ''Local service is not running''
          else error_message e))]\<rparr>]"
  by (simp add: on_tunnel_request_def handleTunnelRequest_def)

lemma on_tunnel_request_single:
  "\<exists>response. on_tunnel_request cfg axios request = [response]"
  by (cases "axios (axios_config cfg request)")
    (simp_all add: on_tunnel_request_error on_tunnel_request_ok)

text \<open>
  C8. For every request the \<^verbatim>\<open>tunnel_request\<close> listener receives, whatever the local
  service does, the listener calls the acknowledgement callback exactly once: with the
  local service's status, headers and data when axios returns, and with status 500, no
  headers and the body \<^verbatim>\<open>{ error: message }\<close> when axios throws, where the message
  is \<^verbatim>\<open>'Local service is not running'\<close> for ECONNREFUSED. The callback belongs to
  the socket the request came on.
\<close>

theorem agent_always_answers_once:
  "length (on_tunnel_request cfg axios request) = 1
   \<and> (\<forall>r. axios (axios_config cfg request) = Inr r \<longrightarrow>
        on_tunnel_request cfg axios request =
          [\<lparr>statusCode = response_status r, headers = response_headers r, body = response_data r\<rparr>])
   \<and> (\<forall>e. axios (axios_config cfg request) = Inl e \<longrightarrow>
        on_tunnel_request cfg axios request =
          [\<lparr>statusCode = 500, headers = [],
            body = JObject [(''error'', JString
              (if error_code e = Some ''ECONNREFUSED'' then ''Local service is not running''
               else error_message e))]\<rparr>])
   \<and> (n < length (sockets a) \<and> sockets a ! n \<longrightarrow>
        agent_step axios (TunnelRequestEvent n request) a =
          (a, [Callback n (hd (on_tunnel_request (config a) axios request))]))"
proof (intro conjI allI impI)
  show "length (on_tunnel_request cfg axios request) = 1"
    using on_tunnel_request_single [of cfg axios request] by auto
next
  fix r assume "axios (axios_config cfg request) = Inr r"
  then show "on_tunnel_request cfg axios request =
          [\<lparr>statusCode = response_status r, headers = response_headers r, body = response_data r\<rparr>]"
    by (rule on_tunnel_request_ok)
next
  fix e assume "axios (axios_config cfg request) = Inl e"
  then show "on_tunnel_request cfg axios request =
          [\<lparr>statusCode = 500, headers = [],
            body = JObject [(''error'', JString
              (if error_code e = Some ''ECONNREFUSED'' then ''Local service is not running''
               else error_message e))]\<rparr>]"
    by (rule on_tunnel_request_error)
next
  assume live: "n < length (sockets a) \<and> sockets a ! n"
  obtain response where r: "on_tunnel_request (config a) axios request = [response]"
    using on_tunnel_request_single by blast
  show "agent_step axios (TunnelRequestEvent n request) a =
          (a, [Callback n (hd (on_tunnel_request (config a) axios request))])"
    using live by (simp add: agent_step_def r)
qed

theorem agent_always_answers_once_witness:
  "on_tunnel_request sampleConfig refusing getStatus =
     [\<lparr>statusCode = 500, headers = [],
       body = JObject [(''error'', JString ''Local service is not running'')]\<rparr>]
   \<and> on_tunnel_request sampleConfig okService getStatus =
     [\<lparr>statusCode = 200, headers = [(''content-type'', ''application/json'')],
       body = JObject [(''ok'', JBool True)]\<rparr>]
   \<and> snd (agent_run okService [SocketConnect 0, TunnelRequestEvent 0 getStatus] (fst (start sampleConfig))) =
     [Callback 0 \<lparr>statusCode = 200, headers = [(''content-type'', ''application/json'')],
       body = JObject [(''ok'', JBool True)]\<rparr>]"
proof -
  let ?a = "fst (agent_run okService [SocketConnect 0] (fst (start sampleConfig)))"
  have s: "0 < length (sockets ?a) \<and> sockets ?a ! 0"
    by (simp add: start_def connect_def new_client_def socket_connected_def startHeartbeat_def
        agent_step_def on_connect_def Let_def)
  have r: "refusing (axios_config sampleConfig getStatus) =
      Inl \<lparr>error_code = Some ''ECONNREFUSED'', error_message = ''connect ECONNREFUSED''\<rparr>"
    by (simp add: refusing_def)
  have k: "okService (axios_config sampleConfig getStatus) =
     Inr \<lparr>response_status = 200, response_headers = [(''content-type'', ''application/json'')],
          response_data = JObject [(''ok'', JBool True)]\<rparr>"
    by (simp add: okService_def)
  have c: "config ?a = sampleConfig"
    by (simp add: start_def connect_def new_client_def socket_connected_def startHeartbeat_def
        agent_step_def on_connect_def Let_def)
  have 1: "on_tunnel_request sampleConfig refusing getStatus =
     [\<lparr>statusCode = 500, headers = [],
       body = JObject [(''error'', JString ''Local service is not running'')]\<rparr>]"
    using agent_always_answers_once [of sampleConfig refusing getStatus 0 ?a] r by simp
  have 2: "on_tunnel_request sampleConfig okService getStatus =
     [\<lparr>statusCode = 200, headers = [(''content-type'', ''application/json'')],
       body = JObject [(''ok'', JBool True)]\<rparr>]"
    using agent_always_answers_once [of sampleConfig okService getStatus 0 ?a] k by simp
  have 3: "agent_step okService (TunnelRequestEvent 0 getStatus) ?a =
          (?a, [Callback 0 (hd (on_tunnel_request sampleConfig okService getStatus))])"
    using agent_always_answers_once [of sampleConfig okService getStatus 0 ?a] s c by simp
  have 4: "snd (agent_step okService (SocketConnect 0) (fst (start sampleConfig))) = []"
    by (simp add: start_def connect_def new_client_def socket_connected_def startHeartbeat_def
        agent_step_def on_connect_def Let_def)
  show ?thesis
    using 1 2 3 4 by (simp add: split_def)
qed

section \<open>The default secret\<close>

text \<open>
  C10, as the claim states it, fails: with \<^verbatim>\<open>JWT_SECRET\<close> unset, a well-formed
  token signed with \<^verbatim>\<open>'default-secret'\<close>, unexpired and of type
  \<^verbatim>\<open>'tunnel-client'\<close>, is refused with \<^verbatim>\<open>'Invalid token payload'\<close> when it
  carries no client id or an empty one, and with \<^verbatim>\<open>'Invalid token'\<close> when its
  \<^verbatim>\<open>nbf\<close> claim lies in the future.
\<close>

theorem default_secret_counterexample:
  "authenticate \<lparr>JWT_SECRET = None\<rparr> 0
     (Presented (Signed ''default-secret''
        \<lparr>clientId = None, payload_type = Some ''tunnel-client'', iat = Some 0, nbf = None,
         exp = Some 2592000\<rparr>)) =
     NextError ''Invalid token payload''
   \<and> authenticate \<lparr>JWT_SECRET = None\<rparr> 0
     (Presented (Signed ''default-secret''
        \<lparr>clientId = Some [], payload_type = Some ''tunnel-client'', iat = Some 0, nbf = None,
         exp = Some 2592000\<rparr>)) =
     NextError ''Invalid token payload''
   \<and> authenticate \<lparr>JWT_SECRET = None\<rparr> 0
     (Presented (Signed ''default-secret''
        \<lparr>clientId = Some ''agent-1'', payload_type = Some ''tunnel-client'', iat = Some 0,
         nbf = Some 3600, exp = Some 2592000\<rparr>)) =
     NextError ''Invalid token''"
  by (simp add: authenticate_def jwt_verify_def secret_of_def)

text \<open>
  C10, amended. With \<^verbatim>\<open>JWT_SECRET\<close> unset the verifier's secret is the literal
  \<^verbatim>\<open>'default-secret'\<close>, the one the token generator signs with; the middleware then
  accepts every well-formed token signed with it that has not expired, whose
  \<^verbatim>\<open>nbf\<close> claim, if it has one, is not in the future, and whose payload has type
  \<^verbatim>\<open>'tunnel-client'\<close> and a non-empty client id.
\<close>

theorem default_secret_accepts:
  assumes "JWT_SECRET env = None"
  shows "secret_of env = ''default-secret''
    \<and> generateToken env uuid issued =
        Signed ''default-secret''
          \<lparr>clientId = Some uuid, payload_type = Some ''tunnel-client'',
           iat = Some (issued div 1000), nbf = None, exp = Some (issued div 1000 + 2592000)\<rparr>
    \<and> (clientId p = Some cid \<and> cid \<noteq> [] \<and> payload_type p = Some ''tunnel-client''
         \<and> (case exp p of None \<Rightarrow> True | Some e \<Rightarrow> now div 1000 < e)
         \<and> (case nbf p of None \<Rightarrow> True | Some n \<Rightarrow> n \<le> now div 1000)
       \<longrightarrow> authenticate env now (Presented (Signed ''default-secret'' p)) = NextOk cid)"
proof -
  have sec: "secret_of env = ''default-secret''"
    using assms by (simp add: secret_of_def)
  have gen: "generateToken env uuid issued =
        Signed ''default-secret''
          \<lparr>clientId = Some uuid, payload_type = Some ''tunnel-client'',
           iat = Some (issued div 1000), nbf = None, exp = Some (issued div 1000 + 2592000)\<rparr>"
    by (simp add: generateToken_def jwt_sign_def sec)
  have acc: "authenticate env now (Presented (Signed ''default-secret'' p)) = NextOk cid"
    if "clientId p = Some cid \<and> cid \<noteq> [] \<and> payload_type p = Some ''tunnel-client''
         \<and> (case exp p of None \<Rightarrow> True | Some e \<Rightarrow> now div 1000 < e)
         \<and> (case nbf p of None \<Rightarrow> True | Some n \<Rightarrow> n \<le> now div 1000)"
    using that by (auto simp add: authenticate_def jwt_verify_def sec split: option.splits)
  from sec gen acc show ?thesis by blast
qed

theorem default_secret_accepts_witness:
  "JWT_SECRET \<lparr>JWT_SECRET = None\<rparr> = None
   \<and> authenticate \<lparr>JWT_SECRET = None\<rparr> 86400000
       (Presented (generateToken \<lparr>JWT_SECRET = None\<rparr> ''0f8fad5b'' 0)) = NextOk ''0f8fad5b''
   \<and> authenticate \<lparr>JWT_SECRET = None\<rparr> 86400000
       (Presented (Signed ''default-secret''
          \<lparr>clientId = Some ''forged'', payload_type = Some ''tunnel-client'', iat = None,
           nbf = Some 86400, exp = None\<rparr>)) =
       NextOk ''forged''"
proof -
  have h: "JWT_SECRET \<lparr>JWT_SECRET = None\<rparr> = None" by simp
  have 1: "authenticate \<lparr>JWT_SECRET = None\<rparr> 86400000
       (Presented (generateToken \<lparr>JWT_SECRET = None\<rparr> ''0f8fad5b'' 0)) = NextOk ''0f8fad5b''"
    using default_secret_accepts [OF h, of "''0f8fad5b''" 0
        "\<lparr>clientId = Some ''0f8fad5b'', payload_type = Some ''tunnel-client'',
           iat = Some 0, nbf = None, exp = Some 2592000\<rparr>" "''0f8fad5b''" 86400000]
    by simp
  have 2: "authenticate \<lparr>JWT_SECRET = None\<rparr> 86400000
       (Presented (Signed ''default-secret''
          \<lparr>clientId = Some ''forged'', payload_type = Some ''tunnel-client'', iat = None,
           nbf = Some 86400, exp = None\<rparr>)) =
       NextOk ''forged''"
    using default_secret_accepts [OF h, of "''0f8fad5b''" 0
        "\<lparr>clientId = Some ''forged'', payload_type = Some ''tunnel-client'', iat = None,
           nbf = Some 86400, exp = None\<rparr>"
        "''forged''" 86400000]
    by simp
  from h 1 2 show ?thesis by blast
qed

text \<open>A handshake without a token is refused, and one whose token is not a string
  leaves the middleware by an exception.\<close>

lemma authenticate_no_string:
  "authenticate env now Absent = NextError ''Authentication token required''
   \<and> authenticate env now NotAString = Thrown ''TypeError''"
  by (simp add: authenticate_def)

section \<open>The response's way back\<close>












section \<open>Settling a request once\<close>

lemma outcomes_append [simp]: "outcomes rid (xs @ ys) = outcomes rid xs @ outcomes rid ys"
  by (simp add: outcomes_def)

lemma outcomes_Nil [simp]: "outcomes rid [] = []"
  by (simp add: outcomes_def)

lemma outcomes_Cons [simp]:
  "outcomes rid (a # xs) = (if is_outcome rid a then a # outcomes rid xs else outcomes rid xs)"
  by (simp add: outcomes_def)

lemma answered_once_initial: "answered_once initial []"
  by (simp add: answered_once_def initial_def)

lemma answered_once_frame:
  assumes "answered_once s acts" "exchanges s' = exchanges s" "nextRequest s' = nextRequest s"
    "\<And>rid. outcomes rid xs = []"
  shows "answered_once s' (acts @ xs)"
  using assms by (simp add: answered_once_def)

lemma answered_once_connection:
  "answered_once s acts \<Longrightarrow>
   answered_once (fst (on_connection sock now s)) (acts @ snd (on_connection sock now s))"
  by (erule answered_once_frame)
    (auto simp add: on_connection_def split: option.splits)

lemma answered_once_heartbeat:
  "answered_once s acts \<Longrightarrow>
   answered_once (fst (on_heartbeat sid now s)) (acts @ snd (on_heartbeat sid now s))"
  by (erule answered_once_frame)
    (auto simp add: on_heartbeat_def split: option.splits)

lemma answered_once_disconnect:
  "answered_once s acts \<Longrightarrow>
   answered_once (fst (on_disconnect sid s)) (acts @ snd (on_disconnect sid s))"
  by (erule answered_once_frame)
    (auto simp add: on_disconnect_def split: option.splits)

lemma answered_once_Some:
  "answered_once s acts \<Longrightarrow> exchanges s rid = Some ex \<Longrightarrow>
   rid < nextRequest s
   \<and> (if responsePromise ex = Pending then timeout ex \<and> outcomes rid acts = []
      else \<not> timeout ex \<and> length (outcomes rid acts) = 1)"
  by (simp add: answered_once_def)

lemma answered_once_None:
  "answered_once s acts \<Longrightarrow> exchanges s rid = None \<Longrightarrow>
   length (outcomes rid acts) = (if rid < nextRequest s then 1 else 0)"
  by (simp add: answered_once_def)

lemma answered_onceI:
  assumes "\<And>rid ex. exchanges s rid = Some ex \<Longrightarrow>
      rid < nextRequest s
      \<and> (if responsePromise ex = Pending then timeout ex \<and> outcomes rid acts = []
         else \<not> timeout ex \<and> length (outcomes rid acts) = 1)"
    and "\<And>rid. exchanges s rid = None \<Longrightarrow>
      length (outcomes rid acts) = (if rid < nextRequest s then 1 else 0)"
  shows "answered_once s acts"
  using assms by (simp add: answered_once_def)

lemma answered_once_request:
  assumes inv: "answered_once s acts"
  shows "answered_once (fst (on_request req res0 now s)) (acts @ snd (on_request req res0 now s))"
proof -
  have fresh: "exchanges s (nextRequest s) = None"
  proof (cases "exchanges s (nextRequest s)")
    case (Some ex)
    from answered_once_Some [OF inv Some] show ?thesis by simp
  qed simp
  from answered_once_None [OF inv fresh] have none: "outcomes (nextRequest s) acts = []"
    by simp
  show ?thesis
  proof (rule answered_onceI)
    fix rid ex
    assume e: "exchanges (fst (on_request req res0 now s)) rid = Some ex"
    show "rid < nextRequest (fst (on_request req res0 now s))
      \<and> (if responsePromise ex = Pending
          then timeout ex \<and> outcomes rid (acts @ snd (on_request req res0 now s)) = []
          else \<not> timeout ex \<and> length (outcomes rid (acts @ snd (on_request req res0 now s))) = 1)"
    proof (cases "rid = nextRequest s")
      case True
      with e none show ?thesis
        by (cases "activeClient s") (auto simp add: on_request_def Let_def fresh)
    next
      case False
      with e have "exchanges s rid = Some ex"
        by (cases "activeClient s") (auto simp add: on_request_def Let_def)
      from answered_once_Some [OF inv this] False show ?thesis
        by (cases "activeClient s") (auto simp add: on_request_def Let_def)
    qed
  next
    fix rid
    assume e: "exchanges (fst (on_request req res0 now s)) rid = None"
    show "length (outcomes rid (acts @ snd (on_request req res0 now s))) =
        (if rid < nextRequest (fst (on_request req res0 now s)) then 1 else 0)"
    proof (cases "rid = nextRequest s")
      case True
      with e none show ?thesis
        by (cases "activeClient s") (auto simp add: on_request_def Let_def)
    next
      case False
      with e have "exchanges s rid = None"
        by (cases "activeClient s") (auto simp add: on_request_def Let_def)
      from answered_once_None [OF inv this] False show ?thesis
        by (cases "activeClient s") (auto simp add: on_request_def Let_def less_Suc_eq)
    qed
  qed
qed

lemma resume_shape:
  "\<exists>r a. resume rid ex s = (s\<lparr>exchanges := (exchanges s)(rid \<mapsto> ex\<lparr>res := r\<rparr>)\<rparr>, [a])
     \<and> (\<forall>n. is_outcome n a = (n = rid))"
proof (cases "try_block ex s")
  case (Pair thrown r)
  show ?thesis
  proof (cases thrown)
    case None
    with Pair have "resume rid ex s =
        (s\<lparr>exchanges := (exchanges s)(rid \<mapsto> ex\<lparr>res := r\<rparr>)\<rparr>, [Respond rid r])"
      by (simp add: resume_def)
    then show ?thesis
      by (intro exI [of _ r] exI [of _ "Respond rid r"]) auto
  next
    case (Some e)
    show ?thesis
    proof (cases "catch_block r s")
      case (Inl e')
      with Pair Some have "resume rid ex s =
          (s\<lparr>exchanges := (exchanges s)(rid \<mapsto> ex\<lparr>res := r\<rparr>)\<rparr>, [UnhandledRejection rid e'])"
        by (simp add: resume_def)
      then show ?thesis
        by (intro exI [of _ r] exI [of _ "UnhandledRejection rid e'"]) auto
    next
      case (Inr r')
      with Pair Some have "resume rid ex s =
          (s\<lparr>exchanges := (exchanges s)(rid \<mapsto> ex\<lparr>res := r'\<rparr>)\<rparr>, [Respond rid r'])"
        by (simp add: resume_def)
      then show ?thesis
        by (intro exI [of _ r'] exI [of _ "Respond rid r'"]) auto
    qed
  qed
qed

lemma resume_effect:
  assumes "responsePromise ex \<noteq> Pending"
  shows "\<exists>ex2 a. fst (resume rid ex s) = s\<lparr>exchanges := (exchanges s)(rid \<mapsto> ex2)\<rparr>
           \<and> responsePromise ex2 = responsePromise ex \<and> timeout ex2 = timeout ex
           \<and> snd (resume rid ex s) = [a] \<and> (\<forall>n. is_outcome n a = (n = rid))"
proof -
  obtain r a where "resume rid ex s = (s\<lparr>exchanges := (exchanges s)(rid \<mapsto> ex\<lparr>res := r\<rparr>)\<rparr>, [a])"
    and "\<forall>n. is_outcome n a = (n = rid)"
    using resume_shape by blast
  then show ?thesis
    by (intro exI [of _ "ex\<lparr>res := r\<rparr>"] exI [of _ a]) simp
qed

lemma answered_once_settle:
  assumes inv: "answered_once s acts"
    and ex: "exchanges s n = Some ex" "responsePromise ex = Pending"
    and new: "responsePromise ex' \<noteq> Pending" "\<not> timeout ex'"
  shows "answered_once (fst (resume n ex' s)) (acts @ snd (resume n ex' s))"
proof -
  obtain ex2 a where f: "fst (resume n ex' s) = s\<lparr>exchanges := (exchanges s)(n \<mapsto> ex2)\<rparr>"
    and p: "responsePromise ex2 = responsePromise ex'" and t: "timeout ex2 = timeout ex'"
    and o: "snd (resume n ex' s) = [a]" and a: "\<And>m. is_outcome m a = (m = n)"
    using resume_effect [OF new(1), of n s] by blast
  from answered_once_Some [OF inv ex(1)] ex(2)
  have n: "n < nextRequest s" "outcomes n acts = []" by simp_all
  show ?thesis
    unfolding f o
  proof (rule answered_onceI)
    fix rid e
    assume e: "exchanges (s\<lparr>exchanges := (exchanges s)(n \<mapsto> ex2)\<rparr>) rid = Some e"
    show "rid < nextRequest (s\<lparr>exchanges := (exchanges s)(n \<mapsto> ex2)\<rparr>)
      \<and> (if responsePromise e = Pending then timeout e \<and> outcomes rid (acts @ [a]) = []
         else \<not> timeout e \<and> length (outcomes rid (acts @ [a])) = 1)"
    proof (cases "rid = n")
      case True
      with e n p t new show ?thesis by (simp add: a)
    next
      case False
      with e have "exchanges s rid = Some e" by simp
      from answered_once_Some [OF inv this] False show ?thesis by (simp add: a)
    qed
  next
    fix rid
    assume e: "exchanges (s\<lparr>exchanges := (exchanges s)(n \<mapsto> ex2)\<rparr>) rid = None"
    then have ne: "rid \<noteq> n" and "exchanges s rid = None"
      by (auto split: if_splits)
    from answered_once_None [OF inv this(2)] ne
    show "length (outcomes rid (acts @ [a])) =
        (if rid < nextRequest (s\<lparr>exchanges := (exchanges s)(n \<mapsto> ex2)\<rparr>) then 1 else 0)"
      by (simp add: a)
  qed
qed

lemma answered_once_retouch:
  assumes inv: "answered_once s acts"
    and ex: "exchanges s n = Some ex" "responsePromise ex \<noteq> Pending"
  shows "s\<lparr>exchanges := (exchanges s)(n \<mapsto> ex\<lparr>timeout := False\<rparr>)\<rparr> = s"
proof -
  from answered_once_Some [OF inv ex(1)] ex(2) have "\<not> timeout ex" by simp
  then have "ex\<lparr>timeout := False\<rparr> = ex" by simp
  then have "(exchanges s)(n \<mapsto> ex\<lparr>timeout := False\<rparr>) = exchanges s"
    using ex(1) by (simp add: map_upd_triv)
  then show ?thesis by simp
qed

lemma answered_once_ack:
  assumes "answered_once s acts"
  shows "answered_once (fst (on_ack n r s)) (acts @ snd (on_ack n r s))"
proof (cases "exchanges s n")
  case None
  with assms show ?thesis by (simp add: on_ack_def)
next
  case (Some ex)
  show ?thesis
  proof (cases "responsePromise ex = Pending")
    case True
    have "on_ack n r s = resume n (ex\<lparr>timeout := False, responsePromise := Fulfilled r\<rparr>) s"
      using Some True by (simp add: on_ack_def)
    with answered_once_settle [OF assms Some True, of "ex\<lparr>timeout := False, responsePromise := Fulfilled r\<rparr>"]
    show ?thesis by simp
  next
    case False
    then have "on_ack n r s = (s\<lparr>exchanges := (exchanges s)(n \<mapsto> ex\<lparr>timeout := False\<rparr>)\<rparr>, [])"
      using Some by (cases "responsePromise ex") (simp_all add: on_ack_def)
    with assms answered_once_retouch [OF assms Some False] show ?thesis
      by simp
  qed
qed

lemma answered_once_timeout:
  assumes "answered_once s acts"
  shows "answered_once (fst (on_timeout n s)) (acts @ snd (on_timeout n s))"
proof (cases "exchanges s n")
  case None
  with assms show ?thesis by (simp add: on_timeout_def)
next
  case (Some ex)
  show ?thesis
  proof (cases "responsePromise ex = Pending")
    case True
    with answered_once_Some [OF assms Some] have armed: "timeout ex"
      by simp
    have "on_timeout n s =
        resume n (ex\<lparr>timeout := False, responsePromise := Rejected ''Request timeout''\<rparr>) s"
      using Some True armed by (simp add: on_timeout_def)
    with answered_once_settle [OF assms Some True,
        of "ex\<lparr>timeout := False, responsePromise := Rejected ''Request timeout''\<rparr>"]
    show ?thesis by simp
  next
    case False
    with answered_once_Some [OF assms Some] have "\<not> timeout ex"
      by simp
    with assms Some show ?thesis by (simp add: on_timeout_def)
  qed
qed

lemma answered_once_disconnect_step:
  "answered_once s acts \<Longrightarrow>
   answered_once (fst (step (Disconnect sid) s)) (acts @ snd (step (Disconnect sid) s))"
  by (erule answered_once_frame) (auto simp add: on_disconnect_def)

lemma answered_once_step:
  "answered_once s acts \<Longrightarrow> answered_once (fst (step e s)) (acts @ snd (step e s))"
  by (cases e)
    (simp_all add: answered_once_connection answered_once_heartbeat answered_once_disconnect_step
      answered_once_request answered_once_ack answered_once_timeout on_tunnel_response_def
      on_error_def del: step.simps(4))

lemma answered_once_run:
  "answered_once s acts \<Longrightarrow> answered_once (fst (run evs s)) (acts @ snd (run evs s))"
proof (induction evs arbitrary: s acts)
  case Nil
  then show ?case by simp
next
  case (Cons e evs)
  from Cons.IH [OF answered_once_step [OF Cons.prems, of e]] show ?case
    by (simp add: split_def)
qed

lemma reachable_answered_once: "answered_once (fst (run evs initial)) (snd (run evs initial))"
  using answered_once_run [OF answered_once_initial, of evs] by simp

lemma settle_by_ack:
  assumes "exchanges s rid = Some ex" "responsePromise ex = Pending"
  shows "map_option responsePromise (exchanges (fst (on_ack rid r s)) rid) = Some (Fulfilled r)
    \<and> length (outcomes rid (snd (on_ack rid r s))) = 1"
proof -
  let ?ex = "ex\<lparr>timeout := False, responsePromise := Fulfilled r\<rparr>"
  have eq: "on_ack rid r s = resume rid ?ex s"
    using assms by (simp add: on_ack_def)
  have "responsePromise ?ex \<noteq> Pending" by simp
  from resume_effect [OF this, of rid s] show ?thesis
    unfolding eq by auto
qed

lemma settle_by_timeout:
  assumes "exchanges s rid = Some ex" "responsePromise ex = Pending" "timeout ex"
  shows "map_option responsePromise (exchanges (fst (on_timeout rid s)) rid) =
           Some (Rejected ''Request timeout'')
    \<and> length (outcomes rid (snd (on_timeout rid s))) = 1"
proof -
  let ?ex = "ex\<lparr>timeout := False, responsePromise := Rejected ''Request timeout''\<rparr>"
  have eq: "on_timeout rid s = resume rid ?ex s"
    using assms by (simp add: on_timeout_def)
  have "responsePromise ?ex \<noteq> Pending" by simp
  from resume_effect [OF this, of rid s] show ?thesis
    unfolding eq by auto
qed

text \<open>
  C5, as the claim states it, fails: session loss is not among the triggers. After the
  active socket disconnects the request is still pending; the timer that fires later is
  not discarded, it is what settles the request.
\<close>

theorem session_loss_settles_nothing_counterexample:
  "pending (fst (run [Connection sockA 0, Request getStatus res200 1, Disconnect ''a''] initial)) 0
   \<and> step (Timeout 0)
        (fst (run [Connection sockA 0, Request getStatus res200 1, Disconnect ''a''] initial)) \<noteq>
      (fst (run [Connection sockA 0, Request getStatus res200 1, Disconnect ''a''] initial), [])
   \<and> settled (fst (step (Timeout 0)
        (fst (run [Connection sockA 0, Request getStatus res200 1, Disconnect ''a''] initial)))) 0"
  by (simp add: initial_def on_connection_def on_disconnect_def on_request_def on_timeout_def
      resume_def try_block_def catch_block_def Let_def sockA_def pending_def settled_def)

text \<open>
  C5, amended. In every state the relay reaches from its initial state, and for every
  request number: at most one answer has gone to that caller; a pending request has
  had none, and the first acknowledgement or timer for it settles its promise (fulfilled
  with the response, or rejected with \<^verbatim>\<open>'Request timeout'\<close>) and produces exactly one
  outcome, while a disconnect leaves it pending; a settled request has had exactly one
  outcome; and an acknowledgement or a timer for a request that is not pending (settled
  before, or unknown) changes nothing and produces nothing.
\<close>

theorem settles_exactly_once:
  assumes run: "run evs initial = (s, acts)"
  shows "length (outcomes rid acts) \<le> 1
    \<and> (pending s rid \<longrightarrow>
         outcomes rid acts = []
         \<and> map_option responsePromise (exchanges (fst (step (Ack rid r) s)) rid) = Some (Fulfilled r)
         \<and> length (outcomes rid (snd (step (Ack rid r) s))) = 1
         \<and> map_option responsePromise (exchanges (fst (step (Timeout rid) s)) rid) =
             Some (Rejected ''Request timeout'')
         \<and> length (outcomes rid (snd (step (Timeout rid) s))) = 1
         \<and> pending (fst (step (Disconnect sid) s)) rid)
    \<and> (settled s rid \<longrightarrow> length (outcomes rid acts) = 1)
    \<and> (\<not> pending s rid \<longrightarrow> step (Ack rid r) s = (s, []) \<and> step (Timeout rid) s = (s, []))"
proof -
  have inv: "answered_once s acts"
    using reachable_answered_once [of evs] run by simp
  have le: "length (outcomes rid acts) \<le> 1"
  proof (cases "exchanges s rid")
    case None
    from answered_once_None [OF inv None] show ?thesis by (simp split: if_splits)
  next
    case (Some ex)
    from answered_once_Some [OF inv Some] show ?thesis by (simp split: if_splits)
  qed
  have pend: "outcomes rid acts = []
         \<and> map_option responsePromise (exchanges (fst (step (Ack rid r) s)) rid) = Some (Fulfilled r)
         \<and> length (outcomes rid (snd (step (Ack rid r) s))) = 1
         \<and> map_option responsePromise (exchanges (fst (step (Timeout rid) s)) rid) =
             Some (Rejected ''Request timeout'')
         \<and> length (outcomes rid (snd (step (Timeout rid) s))) = 1
         \<and> pending (fst (step (Disconnect sid) s)) rid" if p: "pending s rid"
  proof -
    from p obtain ex where ex: "exchanges s rid = Some ex" "responsePromise ex = Pending"
      by (auto simp add: pending_def split: option.splits)
    from answered_once_Some [OF inv ex(1)] ex(2)
    have armed: "timeout ex" and none: "outcomes rid acts = []" by simp_all
    have "pending (fst (step (Disconnect sid) s)) rid"
      using p by (simp add: on_disconnect_def pending_def)
    with none settle_by_ack [OF ex, of r] settle_by_timeout [OF ex armed] show ?thesis
      by simp
  qed
  have sett: "length (outcomes rid acts) = 1" if "settled s rid"
  proof -
    from that obtain ex where ex: "exchanges s rid = Some ex" "responsePromise ex \<noteq> Pending"
      by (auto simp add: settled_def split: option.splits)
    from answered_once_Some [OF inv ex(1)] ex(2) show ?thesis by simp
  qed
  have late: "step (Ack rid r) s = (s, []) \<and> step (Timeout rid) s = (s, [])"
    if np: "\<not> pending s rid"
  proof (cases "exchanges s rid")
    case None
    then show ?thesis by (simp add: on_ack_def on_timeout_def)
  next
    case (Some ex)
    with np have settled: "responsePromise ex \<noteq> Pending"
      by (simp add: pending_def)
    from answered_once_Some [OF inv Some] settled have off: "\<not> timeout ex" by simp
    have "on_ack rid r s = (s\<lparr>exchanges := (exchanges s)(rid \<mapsto> ex\<lparr>timeout := False\<rparr>)\<rparr>, [])"
      using Some settled by (cases "responsePromise ex") (simp_all add: on_ack_def)
    with answered_once_retouch [OF inv Some settled] off Some show ?thesis
      by (simp add: on_timeout_def)
  qed
  from le pend sett late show ?thesis by blast
qed

theorem settles_exactly_once_witness:
  "pending (fst (run [Connection sockA 0, Request getStatus res200 1] initial)) 0
   \<and> outcomes 0 (snd (run [Connection sockA 0, Request getStatus res200 1] initial)) = []
   \<and> length (outcomes 0 (snd (step (Timeout 0)
        (fst (run [Connection sockA 0, Request getStatus res200 1] initial))))) = 1
   \<and> settled (fst (run [Connection sockA 0, Request getStatus res200 1, Timeout 0] initial)) 0
   \<and> length (outcomes 0
        (snd (run [Connection sockA 0, Request getStatus res200 1, Timeout 0] initial))) = 1
   \<and> step (Ack 0 \<lparr>statusCode = 200, headers = [], body = JUndefined\<rparr>)
        (fst (run [Connection sockA 0, Request getStatus res200 1, Timeout 0] initial)) =
      (fst (run [Connection sockA 0, Request getStatus res200 1, Timeout 0] initial), [])"
proof -
  let ?e1 = "[Connection sockA 0, Request getStatus res200 1]"
  let ?e2 = "[Connection sockA 0, Request getStatus res200 1, Timeout 0]"
  let ?r = "\<lparr>statusCode = 200, headers = [], body = JUndefined\<rparr>"
  have p: "pending (fst (run ?e1 initial)) 0"
    by (simp add: initial_def on_connection_def on_request_def Let_def sockA_def pending_def)
  have s: "settled (fst (run ?e2 initial)) 0"
    by (simp add: initial_def on_connection_def on_request_def on_timeout_def resume_def
        try_block_def catch_block_def Let_def sockA_def settled_def)
  have np: "\<not> pending (fst (run ?e2 initial)) 0"
    by (simp add: initial_def on_connection_def on_request_def on_timeout_def resume_def
        try_block_def catch_block_def Let_def sockA_def pending_def)
  have 1: "outcomes 0 (snd (run ?e1 initial)) = []
      \<and> length (outcomes 0 (snd (step (Timeout 0) (fst (run ?e1 initial))))) = 1"
    using settles_exactly_once [of ?e1 "fst (run ?e1 initial)" "snd (run ?e1 initial)" 0 ?r "''a''"] p
    by simp
  have 2: "length (outcomes 0 (snd (run ?e2 initial))) = 1
      \<and> step (Ack 0 ?r) (fst (run ?e2 initial)) = (fst (run ?e2 initial), [])"
    using settles_exactly_once [of ?e2 "fst (run ?e2 initial)" "snd (run ?e2 initial)" 0 ?r "''a''"] s np
    by simp
  from p s 1 2 show ?thesis by blast
qed

section \<open>Reconnecting\<close>

lemmas agent_defs = start_def connect_def new_client_def socket_connected_def startHeartbeat_def
  stopHeartbeat_def scheduleReconnect_def clearTimer_def agent_step_def on_connect_def
  on_socket_disconnect_def heartbeat_tick_def Let_def

lemma reconnect_timers_clearTimer:
  "reconnect_timers (clearTimer h a) = filter (\<lambda>t. fst t \<noteq> h) (reconnect_timers a)"
  by (auto simp add: reconnect_timers_def clearTimer_def intro: filter_cong)

lemma clearTimer_fields [simp]:
  "config (clearTimer h a) = config a"
  "reconnectTimeout_handle (clearTimer h a) = reconnectTimeout_handle a"
  "heartbeatInterval_handle (clearTimer h a) = heartbeatInterval_handle a"
  "nextHandle (clearTimer h a) = nextHandle a"
  "sockets (clearTimer h a) = sockets a"
  "this_socket (clearTimer h a) = this_socket a"
  by (simp_all add: clearTimer_def)

lemma reconnect_timers_fields [simp]:
  "reconnect_timers (a\<lparr>reconnectTimeout_handle := rh\<rparr>) = reconnect_timers a"
  "reconnect_timers (a\<lparr>heartbeatInterval_handle := hh\<rparr>) = reconnect_timers a"
  "reconnect_timers (a\<lparr>sockets := ss\<rparr>) = reconnect_timers a"
  "reconnect_timers (a\<lparr>this_socket := n\<rparr>) = reconnect_timers a"
  by (simp_all add: reconnect_timers_def)

lemma one_reconnect_clearTimer:
  assumes "one_reconnect a"
  shows "one_reconnect (clearTimer h a)"
proof (cases "reconnectTimeout_handle a = Some h")
  case True
  with assms have "reconnect_timers (clearTimer h a) = []"
    by (auto simp add: one_reconnect_def reconnect_timers_clearTimer)
  then show ?thesis by (simp add: one_reconnect_def)
next
  case False
  with assms have "reconnect_timers (clearTimer h a) = reconnect_timers a"
    by (auto simp add: one_reconnect_def reconnect_timers_clearTimer)
  with assms show ?thesis by (simp add: one_reconnect_def)
qed

lemma one_reconnect_sockets [simp]:
  "one_reconnect (a\<lparr>sockets := ss\<rparr>) = one_reconnect a"
  "one_reconnect (a\<lparr>this_socket := n\<rparr>) = one_reconnect a"
  "one_reconnect (a\<lparr>heartbeatInterval_handle := hh\<rparr>) = one_reconnect a"
  by (simp_all add: one_reconnect_def reconnect_timers_def)

lemma one_reconnect_startHeartbeat: "one_reconnect a \<Longrightarrow> one_reconnect (startHeartbeat a)"
proof -
  assume inv: "one_reconnect a"
  let ?a1 = "case heartbeatInterval_handle a of None \<Rightarrow> a | Some h \<Rightarrow> clearTimer h a"
  have 1: "one_reconnect ?a1"
    using inv by (simp add: one_reconnect_clearTimer split: option.splits)
  have "reconnect_timers (startHeartbeat a) = reconnect_timers ?a1"
    "reconnectTimeout_handle (startHeartbeat a) = reconnectTimeout_handle ?a1"
    "config (startHeartbeat a) = config ?a1"
    by (simp_all add: startHeartbeat_def Let_def reconnect_timers_def)
  with 1 show ?thesis by (simp add: one_reconnect_def)
qed

lemma one_reconnect_stopHeartbeat: "one_reconnect a \<Longrightarrow> one_reconnect (stopHeartbeat a)"
  by (simp add: stopHeartbeat_def one_reconnect_clearTimer split: option.splits)

lemma scheduleReconnect_arms:
  assumes "one_reconnect a"
  shows "\<exists>h. reconnect_timers (scheduleReconnect a) = [(h, ReconnectTimer, reconnectInterval (config a))]
     \<and> reconnectTimeout_handle (scheduleReconnect a) = Some h
     \<and> config (scheduleReconnect a) = config a"
proof -
  let ?a1 = "case reconnectTimeout_handle a of None \<Rightarrow> a | Some h \<Rightarrow> clearTimer h a"
  have empty: "reconnect_timers ?a1 = []"
    using assms
    by (auto simp add: one_reconnect_def reconnect_timers_clearTimer split: option.splits)
  have "reconnect_timers (scheduleReconnect a) =
      reconnect_timers ?a1 @ [(nextHandle ?a1, ReconnectTimer, reconnectInterval (config ?a1))]"
    by (simp add: scheduleReconnect_def Let_def reconnect_timers_def)
  moreover have "config ?a1 = config a" by (simp split: option.splits)
  moreover have "reconnectTimeout_handle (scheduleReconnect a) = Some (nextHandle ?a1)"
    "config (scheduleReconnect a) = config ?a1"
    by (simp_all add: scheduleReconnect_def Let_def)
  ultimately show ?thesis using empty by simp
qed

lemma on_connect_cancels:
  assumes "one_reconnect a"
  shows "reconnect_timers (on_connect a) = []"
  using assms
  by (auto simp add: on_connect_def one_reconnect_def reconnect_timers_clearTimer
      split: option.splits)

lemma one_reconnect_connect: "one_reconnect a \<Longrightarrow> one_reconnect (fst (connect a))"
  by (simp add: connect_def one_reconnect_startHeartbeat)

lemma one_reconnect_step:
  assumes "one_reconnect a"
  shows "one_reconnect (fst (agent_step axios ev a))"
proof (cases ev)
  case (SocketConnect n)
  have "one_reconnect (on_connect b)" if "one_reconnect b" for b
    using on_connect_cancels [OF that] by (simp add: one_reconnect_def)
  with assms SocketConnect show ?thesis by (simp add: agent_step_def)
next
  case (SocketDisconnected n)
  have "one_reconnect (on_socket_disconnect b)" if "one_reconnect b" for b
    using scheduleReconnect_arms [OF one_reconnect_stopHeartbeat [OF that]]
    by (auto simp add: on_socket_disconnect_def one_reconnect_def)
  with assms SocketDisconnected show ?thesis by (simp add: agent_step_def)
next
  case (Fire h)
  with assms show ?thesis
    by (auto simp add: agent_step_def heartbeat_tick_def one_reconnect_connect
        one_reconnect_clearTimer split: option.splits timer.splits)
qed (use assms in \<open>simp_all add: agent_step_def\<close>)

lemma one_reconnect_run:
  "one_reconnect a \<Longrightarrow> one_reconnect (fst (agent_run axios evs a))"
proof (induction evs arbitrary: a)
  case Nil
  then show ?case by simp
next
  case (Cons e evs)
  from Cons.IH [OF one_reconnect_step [OF Cons.prems, of axios e]] show ?case
    by (simp add: split_def)
qed

lemma one_reconnect_start: "one_reconnect (fst (start cfg))"
proof -
  have "one_reconnect (new_client cfg)"
    by (simp add: one_reconnect_def reconnect_timers_def new_client_def)
  then show ?thesis by (simp add: start_def one_reconnect_connect)
qed

text \<open>
  What holds of the claim: in every state the agent reaches, at most one reconnect timer
  is armed; a disconnect of a connected socket arms exactly one, with the configured
  \<^verbatim>\<open>reconnectInterval\<close>; the \<^verbatim>\<open>connect\<close> event cancels it; and the events that
  report a failed handshake change nothing.
\<close>

lemma reconnect_timer_discipline:
  assumes "agent_run axios evs (fst (start cfg)) = (a, out)"
  shows "length (reconnect_timers a) \<le> 1
    \<and> (n < length (sockets a) \<and> sockets a ! n \<longrightarrow>
         (\<exists>h. reconnect_timers (fst (agent_step axios (SocketDisconnected n) a)) =
                [(h, ReconnectTimer, reconnectInterval cfg)]))
    \<and> (n < length (sockets a) \<and> \<not> sockets a ! n \<longrightarrow>
         reconnect_timers (fst (agent_step axios (SocketConnect n) a)) = [])
    \<and> agent_step axios (ConnectError n) a = (a, [])
    \<and> agent_step axios (ErrorEvent n) a = (a, [])"
proof -
  have inv: "one_reconnect a"
    using one_reconnect_run [OF one_reconnect_start, of axios evs cfg] assms by simp
  have cfg: "config (fst (agent_run axios evs b)) = config b" for b
  proof (induction evs arbitrary: b)
    case (Cons e evs)
    have "config (fst (agent_step axios e b)) = config b"
      by (cases e)
        (auto simp add: agent_defs split: option.splits timer.splits)
    with Cons [of "fst (agent_step axios e b)"] show ?case by (simp add: split_def)
  qed simp
  have c: "config a = cfg"
    using cfg [of "fst (start cfg)"] assms by (simp add: agent_defs)
  have le: "length (reconnect_timers a) \<le> 1"
    using inv by (auto simp add: one_reconnect_def)
  have arm: "\<exists>h. reconnect_timers (fst (agent_step axios (SocketDisconnected n) a)) =
                [(h, ReconnectTimer, reconnectInterval cfg)]"
    if "n < length (sockets a) \<and> sockets a ! n"
  proof -
    have "one_reconnect (stopHeartbeat (a\<lparr>sockets := (sockets a)[n := False]\<rparr>))"
      using inv by (simp add: one_reconnect_stopHeartbeat)
    from scheduleReconnect_arms [OF this] that c show ?thesis
      by (auto simp add: agent_step_def on_socket_disconnect_def stopHeartbeat_def
          split: option.splits)
  qed
  have cancel: "reconnect_timers (fst (agent_step axios (SocketConnect n) a)) = []"
    if "n < length (sockets a) \<and> \<not> sockets a ! n"
    using that inv by (simp add: agent_step_def on_connect_cancels)
  from le arm cancel show ?thesis by (simp add: agent_step_def)
qed


text \<open>
  C9 fails on the code for a failed handshake. The agent connects, is disconnected, and
  its reconnect timer (handle 1, 5000 ms) fires: \<^verbatim>\<open>connect()\<close> opens a second
  socket and returns. That socket's handshake fails, which no listener of the source
  turns into \<^verbatim>\<open>scheduleReconnect\<close>: the agent is left not connected with only the
  heartbeat interval armed, so no further attempt is ever made.
\<close>

theorem failed_reconnect_is_not_retried:
  "timers (fst (agent_run refusing [SocketConnect 0, SocketDisconnected 0] (fst (start sampleConfig)))) =
     [(1, ReconnectTimer, 5000)]
   \<and> timers (fst (agent_run refusing [SocketConnect 0, SocketDisconnected 0, Fire 1, ConnectError 1]
        (fst (start sampleConfig)))) = [(2, HeartbeatTimer, 30000)]
   \<and> sockets (fst (agent_run refusing [SocketConnect 0, SocketDisconnected 0, Fire 1, ConnectError 1]
        (fst (start sampleConfig)))) = [False, False]"
  by (simp add: agent_defs sampleConfig_def)

end
